theory Spec2Isabelle
  imports Main "HOL-Library.Word"
begin

section \<open>LiteChat runner: a shallow embedding of \<open>runner/litechat.py\<close>\<close>

text \<open>
  The script is one linear sequence of library calls: create the working directory,
  download a zip archive into it, extract it, delete the archive, and serve the
  directory over HTTP with a fallback to the entry document. The embedding passes the
  state those calls act on (the filesystem, the two output streams, the listening
  socket) explicitly, and takes what the program cannot decide (what the network
  delivers, what the archive holds, whether a bind succeeds, how the host name
  resolves) from an environment record.
\<close>

subsection \<open>Filesystem\<close>

text \<open>
  A path is its list of components, so \<open>os.path.join(d, n)\<close> is \<open>d @ [n]\<close>. A filesystem
  maps a path to the node stored there. Permissions are not modelled.
\<close>

type_synonym bytes = string
type_synonym fspath = "string list"

datatype node = File bytes | Dir

type_synonym fs = "fspath \<Rightarrow> node option"

text \<open>
  Every exception the script can meet is a subclass of \<open>Exception\<close>; the constructor
  keeps the class, the argument is what \<open>str(e)\<close> returns.
\<close>

datatype exn = OSError string | FileExistsError string | BadZipFile string | OverflowError string

fun str_exn :: "exn \<Rightarrow> string" where
  "str_exn (OSError m) = m"
| "str_exn (FileExistsError m) = m"
| "str_exn (BadZipFile m) = m"
| "str_exn (OverflowError m) = m"

fun class_name :: "exn \<Rightarrow> string" where
  "class_name (OSError m) = ''OSError''"
| "class_name (FileExistsError m) = ''FileExistsError''"
| "class_name (BadZipFile m) = ''zipfile.BadZipFile''"
| "class_name (OverflowError m) = ''OverflowError''"

definition os_path_join :: "fspath \<Rightarrow> string \<Rightarrow> fspath" where
  "os_path_join d n = d @ [n]"

definition os_path_exists :: "fs \<Rightarrow> fspath \<Rightarrow> bool" where
  "os_path_exists f p = (f p \<noteq> None)"

definition os_path_isdir :: "fs \<Rightarrow> fspath \<Rightarrow> bool" where
  "os_path_isdir f p = (f p = Some Dir)"

definition os_path_isfile :: "fs \<Rightarrow> fspath \<Rightarrow> bool" where
  "os_path_isfile f p = (case f p of Some (File _) \<Rightarrow> True | _ \<Rightarrow> False)"

subsection \<open>The request handler (lines 40-44)\<close>

text \<open>
  \<^verbatim>\<open>
  class SPAHandler(SimpleHTTPRequestHandler):
      def do_GET(self):
          if not os.path.exists(self.translate_path(self.path)):
              self.path = '/index.html'
          return SimpleHTTPRequestHandler.do_GET(self)
  \<close>
  \<open>translate_path\<close> and the inherited \<open>do_GET\<close> belong to the standard library: they are
  parameters. The inherited method sees the filesystem and the handler object, whose
  \<open>path\<close> attribute the override may have replaced.
\<close>

record request =
  path :: string
  headers :: "(string \<times> string) list"

definition do_GET ::
  "(string \<Rightarrow> fspath) \<Rightarrow> (fs \<Rightarrow> request \<Rightarrow> 'r) \<Rightarrow> fs \<Rightarrow> request \<Rightarrow> 'r" where
  "do_GET translate_path super_do_GET f self =
     (let self' = (if \<not> os_path_exists f (translate_path (path self))
                   then self\<lparr>path := ''/index.html''\<rparr> else self)
      in super_do_GET f self')"

subsection \<open>Library calls that change the filesystem\<close>

text \<open>
  The functions of \<open>os\<close>, \<open>urllib.request\<close> and \<open>zipfile\<close> that the script calls are
  standard-library code; they are modelled here by what they do to the filesystem. A
  call returns the exception it raised, if any, and the filesystem it leaves behind:
  what a call wrote before it raised stays written.
\<close>

type_synonym fs_call = "fs \<Rightarrow> exn option \<times> fs"

definition parent_ok :: "fs \<Rightarrow> fspath \<Rightarrow> bool" where
  "parent_ok f p = (butlast p = [] \<or> f (butlast p) = Some Dir)"

definition os_mkdir :: "fspath \<Rightarrow> fs_call" where
  "os_mkdir p f =
     (if p = [] \<or> f p \<noteq> None then (Some (FileExistsError ''File exists''), f)
      else if \<not> parent_ok f p then (Some (OSError ''No such file or directory''), f)
      else (None, f(p \<mapsto> Dir)))"

text \<open>
  \<open>os.makedirs(name, exist_ok)\<close>: create the missing ancestors first (ignoring a
  \<open>FileExistsError\<close> from that recursive call), then the leaf; with \<open>exist_ok\<close> an
  existing directory at the leaf is accepted. The recursion runs over the reversed path.
\<close>

fun makedirs_rev :: "bool \<Rightarrow> string list \<Rightarrow> fs_call" where
  "makedirs_rev exist_ok [] f = (None, f)"
| "makedirs_rev exist_ok (tail # rhead) f =
     (case (if rhead \<noteq> [] \<and> \<not> os_path_exists f (rev rhead)
            then (case makedirs_rev exist_ok rhead f of
                    (Some (FileExistsError m), f') \<Rightarrow> (None, f')
                  | r \<Rightarrow> r)
            else (None, f)) of
        (Some e, f') \<Rightarrow> (Some e, f')
      | (None, f') \<Rightarrow>
          (case os_mkdir (rev (tail # rhead)) f' of
             (Some e, f'') \<Rightarrow>
               if \<not> exist_ok \<or> \<not> os_path_isdir f'' (rev (tail # rhead))
               then (Some e, f'') else (None, f'')
           | (None, f'') \<Rightarrow> (None, f'')))"

definition os_makedirs :: "bool \<Rightarrow> fspath \<Rightarrow> fs_call" where
  "os_makedirs exist_ok name f = makedirs_rev exist_ok (rev name) f"

definition os_remove :: "fspath \<Rightarrow> fs_call" where
  "os_remove p f =
     (case f p of
        Some (File b) \<Rightarrow> (None, f(p := None))
      | Some Dir \<Rightarrow> (Some (OSError ''Is a directory''), f)
      | None \<Rightarrow> (Some (OSError ''No such file or directory''), f))"

text \<open>\<open>open(p, 'wb')\<close>: creates the file or truncates it.\<close>

definition open_wb :: "fspath \<Rightarrow> fs_call" where
  "open_wb p f =
     (if p = [] \<or> f p = Some Dir then (Some (OSError ''Is a directory''), f)
      else if \<not> parent_ok f p then (Some (OSError ''No such file or directory''), f)
      else (None, f(p \<mapsto> File [])))"

subsection \<open>Download (line 28)\<close>

text \<open>
  \<open>urlretrieve(url, filename)\<close> opens the URL, then the file, then copies. The environment
  says which of the three ways it goes: the URL cannot be opened (nothing is written),
  the transfer breaks after some bytes, or all bytes arrive.
\<close>

datatype download = Unreachable exn | Interrupted bytes exn | Complete bytes

definition urlretrieve :: "download \<Rightarrow> fspath \<Rightarrow> fs_call" where
  "urlretrieve d filename f =
     (case d of
        Unreachable e \<Rightarrow> (Some e, f)
      | Interrupted b e \<Rightarrow>
          (case open_wb filename f of
             (Some e', f') \<Rightarrow> (Some e', f')
           | (None, f') \<Rightarrow> (Some e, f'(filename \<mapsto> File b)))
      | Complete b \<Rightarrow>
          (case open_wb filename f of
             (Some e', f') \<Rightarrow> (Some e', f')
           | (None, f') \<Rightarrow> (None, f'(filename \<mapsto> File b))))"

subsection \<open>Extraction (lines 32-33)\<close>

text \<open>
  A member of the archive has its sanitised relative name (zipfile strips drive letters,
  leading slashes and \<open>..\<close>) and a payload: a directory entry, data that decompresses,
  data whose decompression or writing raises after some bytes reached the target, or a
  member that cannot even be opened.
\<close>

datatype payload = Directory | Data bytes | Damaged bytes exn | Unreadable exn

record member =
  arcname :: "string list"
  payload :: payload

text \<open>
  Extracting one member, as zipfile does it: create the missing directories above the
  target, then make the directory or open the target for writing and copy the data.
\<close>

definition extract_member :: "fspath \<Rightarrow> member \<Rightarrow> fs_call" where
  "extract_member dir m f =
     (let targetpath = dir @ arcname m;
          upperdirs = butlast targetpath
      in case (if upperdirs \<noteq> [] \<and> \<not> os_path_exists f upperdirs
               then os_makedirs False upperdirs f else (None, f)) of
           (Some e, f1) \<Rightarrow> (Some e, f1)
         | (None, f1) \<Rightarrow>
             (case payload m of
                Directory \<Rightarrow>
                  if \<not> os_path_isdir f1 targetpath then os_mkdir targetpath f1 else (None, f1)
              | Unreadable e \<Rightarrow> (Some e, f1)
              | Data b \<Rightarrow>
                  (case open_wb targetpath f1 of
                     (Some e', f2) \<Rightarrow> (Some e', f2)
                   | (None, f2) \<Rightarrow> (None, f2(targetpath \<mapsto> File b)))
              | Damaged b e \<Rightarrow>
                  (case open_wb targetpath f1 of
                     (Some e', f2) \<Rightarrow> (Some e', f2)
                   | (None, f2) \<Rightarrow> (Some e, f2(targetpath \<mapsto> File b)))))"

fun extractall :: "fspath \<Rightarrow> member list \<Rightarrow> fs_call" where
  "extractall dir [] f = (None, f)"
| "extractall dir (m # ms) f =
     (case extract_member dir m f of
        (Some e, f') \<Rightarrow> (Some e, f')
      | (None, f') \<Rightarrow> extractall dir ms f')"

text \<open>
  \<^verbatim>\<open>
  with zipfile.ZipFile(zip_path, 'r') as zip_ref:
      zip_ref.extractall(temp_dir)
  \<close>
  Opening reads the archive's directory from the file; \<open>zip_members\<close> is what zipfile
  makes of the bytes (\<open>BadZipFile\<close> for a malformed archive).
\<close>

definition with_ZipFile_extractall ::
  "(bytes \<Rightarrow> exn + member list) \<Rightarrow> fspath \<Rightarrow> fspath \<Rightarrow> fs_call" where
  "with_ZipFile_extractall zip_members zp dir f =
     (case f zp of
        Some (File b) \<Rightarrow>
          (case zip_members b of
             Inl e \<Rightarrow> (Some e, f)
           | Inr ms \<Rightarrow> extractall dir ms f)
      | Some Dir \<Rightarrow> (Some (OSError ''Is a directory''), f)
      | None \<Rightarrow> (Some (OSError ''No such file or directory''), f))"

subsection \<open>Text formatting\<close>

text \<open>\<open>str\<close> of a Python integer, and the dotted form of an IPv4 address.\<close>

definition digit_char :: "nat \<Rightarrow> char" where
  "digit_char d = ''0123456789'' ! d"

function str_nat :: "nat \<Rightarrow> string" where
  "str_nat n = (if n < 10 then [digit_char n] else str_nat (n div 10) @ [digit_char (n mod 10)])"
  by pat_completeness auto
termination
  by (relation "measure id") auto

declare str_nat.simps [simp del]

definition str_int :: "int \<Rightarrow> string" where
  "str_int i = (if i < 0 then CHR ''-'' # str_nat (nat (- i)) else str_nat (nat i))"

type_synonym ipv4 = "8 word \<times> 8 word \<times> 8 word \<times> 8 word"

definition str_ip :: "ipv4 \<Rightarrow> string" where
  "str_ip ip =
     (case ip of (a, b, c, d) \<Rightarrow>
        str_nat (unat a) @ ''.'' @ str_nat (unat b) @ ''.'' @ str_nat (unat c) @ ''.'' @ str_nat (unat d))"

subsection \<open>The script\<close>

text \<open>
  The state of a run: the filesystem, the current directory, the lines written to the
  two output streams, and the address of the HTTP server object once one was created.
\<close>

record world =
  files :: fs
  cwd :: fspath
  stdout :: "string list"
  stderr :: "string list"
  listener :: "(string \<times> int) option"

text \<open>
  The parsed command line (lines 12-15): \<open>args.port\<close> and \<open>args.host\<close>. Parsing itself is
  argparse's work and can end the process on its own (\<open>-h\<close>, a malformed argument); the
  embedding starts at line 18 with the parsed arguments.
\<close>

record args =
  port :: int
  host :: bool

text \<open>
  What the run meets outside the program: the directory of the script file, what the
  release URL delivers, how zipfile reads a file's bytes, whether
  \<open>HTTPServer((host, port), ...)\<close> can bind and listen, and what
  \<open>socket.gethostbyname(socket.gethostname())\<close> returns.
\<close>

record env =
  script_dir :: fspath
  remote :: download
  zip_members :: "bytes \<Rightarrow> exn + member list"
  server_bind :: "string \<Rightarrow> int \<Rightarrow> exn option"
  gethostbyname :: "exn + ipv4"

text \<open>
  How a run ends: the process exits with a status, or it sits in \<open>serve_forever()\<close>,
  which returns only when the process is killed from outside.
\<close>

datatype outcome = Exited nat | Serving

definition print :: "string \<Rightarrow> world \<Rightarrow> world" where
  "print s w = w\<lparr>stdout := stdout w @ [s]\<rparr>"

text \<open>
  An exception nobody catches: the interpreter writes the traceback, which ends with
  the exception's class and message, to standard error and exits with status 1.
\<close>

definition uncaught :: "exn \<Rightarrow> world \<Rightarrow> outcome \<times> world" where
  "uncaught e w = (Exited 1, w\<lparr>stderr := stderr w @ [class_name e @ '': '' @ str_exn e]\<rparr>)"

definition temp_dir :: "env \<Rightarrow> fspath" where
  "temp_dir E = os_path_join (script_dir E) ''litechat-app''"

definition zip_path :: "env \<Rightarrow> fspath" where
  "zip_path E = os_path_join (temp_dir E) ''litechat.zip''"

text \<open>Line 51.\<close>

definition access_message :: "args \<Rightarrow> ipv4 \<Rightarrow> string" where
  "access_message a ip =
     (if host a then ''http://'' @ str_ip ip @ '':'' @ str_int (port a) @ '' (accessible from other devices)''
      else ''http://localhost:'' @ str_int (port a) @ '' (local access only)'')"

text \<open>
  Lines 28-37, the fetch and extract stage: download, extract, remove the archive. The
  result is the exception that left the stage, if any, with the state at that moment.
\<close>

definition fetch_extract :: "env \<Rightarrow> world \<Rightarrow> exn option \<times> world" where
  "fetch_extract E w =
     (case urlretrieve (remote E) (zip_path E) (files w) of
        (Some e, f1) \<Rightarrow> (Some e, w\<lparr>files := f1\<rparr>)
      | (None, f1) \<Rightarrow>
          (let w1 = print ''Download complete. Extracting...'' (w\<lparr>files := f1\<rparr>)
           in case with_ZipFile_extractall (zip_members E) (zip_path E) (temp_dir E) (files w1) of
                (Some e, f2) \<Rightarrow> (Some e, w1\<lparr>files := f2\<rparr>)
              | (None, f2) \<Rightarrow>
                  (case os_remove (zip_path E) f2 of
                     (Some e, f3) \<Rightarrow> (Some e, w1\<lparr>files := f3\<rparr>)
                   | (None, f3) \<Rightarrow> (None, print ''Extraction complete.'' (w1\<lparr>files := f3\<rparr>)))))"

text \<open>
  Lines 46-54, the serving stage: create the server, resolve the host name, print the
  access message, serve. \<open>None\<close> means the run has entered \<open>serve_forever()\<close>.
\<close>

definition serve :: "env \<Rightarrow> args \<Rightarrow> world \<Rightarrow> exn option \<times> world" where
  "serve E a w =
     (let h = (if host a then ''0.0.0.0'' else ''localhost'')
      in case server_bind E h (port a) of
           Some e \<Rightarrow> (Some e, w)
         | None \<Rightarrow>
             (let w1 = w\<lparr>listener := Some (h, port a)\<rparr>
              in case gethostbyname E of
                   Inl e \<Rightarrow> (Some e, w1)
                 | Inr ip \<Rightarrow>
                     (None, print (''LiteChat is running at '' @ access_message a ip) w1)))"

text \<open>The body of the \<open>try\<close> statement, lines 28-54.\<close>

definition try_body :: "env \<Rightarrow> args \<Rightarrow> world \<Rightarrow> exn option \<times> world" where
  "try_body E a w =
     (case fetch_extract E w of
        (Some e, w') \<Rightarrow> (Some e, w')
      | (None, w') \<Rightarrow> serve E a w')"

text \<open>
  \<^verbatim>\<open>
  except Exception as e:
      if os.path.exists(zip_path):
          os.remove(zip_path)
      print(f"Error: {e}")
      sys.exit(1)
  \<close>
  An exception raised inside the handler is caught by nobody.
\<close>

definition handler :: "env \<Rightarrow> exn \<Rightarrow> world \<Rightarrow> outcome \<times> world" where
  "handler E e w =
     (case (if os_path_exists (files w) (zip_path E)
            then os_remove (zip_path E) (files w) else (None, files w)) of
        (Some e', f') \<Rightarrow> uncaught e' (w\<lparr>files := f'\<rparr>)
      | (None, f') \<Rightarrow> (Exited 1, print (''Error: '' @ str_exn e) (w\<lparr>files := f'\<rparr>)))"

text \<open>
  Lines 18-26: create the working directory next to the script, enter it, announce the
  download. These lines stand outside the \<open>try\<close> statement.
\<close>

definition enter_workdir :: "env \<Rightarrow> world \<Rightarrow> exn option \<times> world" where
  "enter_workdir E w =
     (case os_makedirs True (temp_dir E) (files w) of
        (Some e, f0) \<Rightarrow> (Some e, w\<lparr>files := f0\<rparr>)
      | (None, f0) \<Rightarrow>
          (None, print ''Downloading LiteChat release...'' (w\<lparr>files := f0, cwd := temp_dir E\<rparr>)))"

text \<open>The whole script from line 18 on.\<close>

definition main :: "env \<Rightarrow> args \<Rightarrow> world \<Rightarrow> outcome \<times> world" where
  "main E a w =
     (case enter_workdir E w of
        (Some e, w0) \<Rightarrow> uncaught e w0
      | (None, w0) \<Rightarrow>
          (case try_body E a w0 of
             (Some e, w') \<Rightarrow> handler E e w'
           | (None, w') \<Rightarrow> (Serving, w')))"

subsection \<open>Notions used in the statements\<close>

text \<open>A directory is non-empty when something exists beneath it.\<close>

definition dir_nonempty :: "fs \<Rightarrow> fspath \<Rightarrow> bool" where
  "dir_nonempty f d = (\<exists>rest. rest \<noteq> [] \<and> f (d @ rest) \<noteq> None)"

text \<open>
  \<open>grows f f'\<close>: every node of \<open>f\<close> is still there in \<open>f'\<close> with its kind; a file's
  content may have been replaced.
\<close>

definition grows :: "fs \<Rightarrow> fs \<Rightarrow> bool" where
  "grows f f' = (\<forall>p. (f p = Some Dir \<longrightarrow> f' p = Some Dir) \<and>
                     (os_path_isfile f p \<longrightarrow> os_path_isfile f' p))"

text \<open>Python's \<open>s.startswith(p)\<close> and \<open>sub in s\<close> on strings.\<close>

fun startswith :: "string \<Rightarrow> string \<Rightarrow> bool" where
  "startswith [] s = True"
| "startswith (c # cs) [] = False"
| "startswith (c # cs) (d # ds) = (c = d \<and> startswith cs ds)"



text \<open>The lines a run has added to standard output, and those that announce the URL.\<close>

definition printed :: "world \<Rightarrow> world \<Rightarrow> string list" where
  "printed w w' = drop (length (stdout w)) (stdout w')"

definition access_lines :: "string list \<Rightarrow> string list" where
  "access_lines ls = filter (startswith ''LiteChat is running at '') ls"

text \<open>
  A probe to put in the place of the inherited \<open>do_GET\<close>: it returns the handler object
  it is called on, so that \<open>do_GET translate_path handed_on f self\<close> is the request the
  override hands on.
\<close>

definition handed_on :: "fs \<Rightarrow> request \<Rightarrow> request" where
  "handed_on f r = r"

subsection \<open>Concrete inputs for the examples\<close>

text \<open>
  A script installed in \<open>/opt/runner\<close>, an archive with an entry document and one asset,
  a machine whose name resolves to 192.168.1.20.
\<close>

definition demo_members :: "member list" where
  "demo_members =
     [\<lparr>arcname = [''index.html''], payload = Data ''<html>''\<rparr>,
      \<lparr>arcname = [''assets'', ''app.js''], payload = Data ''js''\<rparr>]"

definition demo_env :: env where
  "demo_env =
     \<lparr>script_dir = [''opt'', ''runner''],
      remote = Complete ''PK'',
      zip_members = (\<lambda>b. Inr demo_members),
      server_bind = (\<lambda>h p. None),
      gethostbyname = Inr (192, 168, 1, 20)\<rparr>"

definition demo_world :: world where
  "demo_world =
     \<lparr>files = [[''opt''] \<mapsto> Dir, [''opt'', ''runner''] \<mapsto> Dir],
      cwd = [''opt'', ''runner''],
      stdout = [],
      stderr = [],
      listener = None\<rparr>"

definition demo_args :: args where
  "demo_args = \<lparr>port = 3000, host = False\<rparr>"

text \<open>The same archive with a second member whose data is damaged after two bytes.\<close>

definition broken_members :: "member list" where
  "broken_members =
     [\<lparr>arcname = [''index.html''], payload = Data ''<html>''\<rparr>,
      \<lparr>arcname = [''assets'', ''app.js''], payload = Damaged ''js'' (BadZipFile ''Bad CRC-32'')\<rparr>]"

text \<open>Variations: an archive without members, and a release host that cannot be reached.\<close>

definition empty_archive_env :: env where
  "empty_archive_env = demo_env\<lparr>zip_members := (\<lambda>b. Inr [])\<rparr>"

definition broken_archive_env :: env where
  "broken_archive_env = demo_env\<lparr>zip_members := (\<lambda>b. Inr broken_members)\<rparr>"

definition offline_env :: env where
  "offline_env = demo_env\<lparr>remote := Unreachable (OSError ''<urlopen error timed out>'')\<rparr>"

text \<open>
  The demo run and the run with the empty archive after entering the working directory
  and after the fetch and extract stage; the offline run after entering the working
  directory and when the \<open>try\<close> statement is left.
\<close>

definition demo_entered :: world where
  "demo_entered = snd (enter_workdir demo_env demo_world)"

definition demo_fetched :: world where
  "demo_fetched = snd (fetch_extract demo_env demo_entered)"

definition empty_entered :: world where
  "empty_entered = snd (enter_workdir empty_archive_env demo_world)"

definition empty_fetched :: world where
  "empty_fetched = snd (fetch_extract empty_archive_env empty_entered)"

definition offline_entered :: world where
  "offline_entered = snd (enter_workdir offline_env demo_world)"

definition offline_failed :: world where
  "offline_failed = snd (try_body offline_env demo_args offline_entered)"

text \<open>
  The run with the damaged archive, stage by stage: the state after entering the working
  directory, the filesystem after the download, and the filesystem when the extraction
  raises.
\<close>

definition broken_entered :: world where
  "broken_entered = snd (enter_workdir broken_archive_env demo_world)"

definition broken_downloaded :: fs where
  "broken_downloaded =
     snd (urlretrieve (remote broken_archive_env) (zip_path broken_archive_env)
            (files broken_entered))"

definition broken_extracted :: fs where
  "broken_extracted =
     snd (with_ZipFile_extractall (zip_members broken_archive_env) (zip_path broken_archive_env)
            (temp_dir broken_archive_env) broken_downloaded)"

text \<open>
  The filesystem the demo run leaves behind, its document root, and a translation of
  URL paths into it.
\<close>

definition demo_root :: fspath where
  "demo_root = temp_dir demo_env"

definition demo_fs :: fs where
  "demo_fs = files (snd (main demo_env demo_args demo_world))"

fun split_slash :: "string \<Rightarrow> string \<Rightarrow> string list" where
  "split_slash acc [] = (if acc = [] then [] else [acc])"
| "split_slash acc (c # cs) =
     (if c = CHR ''/'' then (if acc = [] then [] else [acc]) @ split_slash [] cs
      else split_slash (acc @ [c]) cs)"

definition demo_translate_path :: "string \<Rightarrow> fspath" where
  "demo_translate_path p = demo_root @ split_slash [] p"

text \<open>
  A stand-in for the inherited \<open>do_GET\<close>: the content of a regular file, a listing
  marker for a directory, a 404 marker otherwise.
\<close>

definition demo_static :: "fs \<Rightarrow> request \<Rightarrow> bytes" where
  "demo_static f r =
     (case f (demo_translate_path (path r)) of
        Some (File b) \<Rightarrow> b
      | Some Dir \<Rightarrow> ''<listing>''
      | None \<Rightarrow> ''404'')"

text \<open>
  A closer stand-in, after \<open>send_head\<close> of the library's handler: a request for a regular
  file that carries \<open>If-Modified-Since\<close> and no \<open>If-None-Match\<close> is answered with status
  304 and no body when the file has not changed since the date named, and with status
  200 and the file's content otherwise. The files of the demo tree count as unchanged
  since any date a request names.
\<close>

record response =
  status :: nat
  body :: bytes

definition has_header :: "string \<Rightarrow> request \<Rightarrow> bool" where
  "has_header name r = (name \<in> set (map fst (headers r)))"

definition conditional_static :: "fs \<Rightarrow> request \<Rightarrow> response" where
  "conditional_static f r =
     (case f (demo_translate_path (path r)) of
        Some (File b) \<Rightarrow>
          if has_header ''If-Modified-Since'' r \<and> \<not> has_header ''If-None-Match'' r
          then \<lparr>status = 304, body = []\<rparr>
          else \<lparr>status = 200, body = b\<rparr>
      | Some Dir \<Rightarrow> \<lparr>status = 200, body = ''<listing>''\<rparr>
      | None \<Rightarrow> \<lparr>status = 404, body = []\<rparr>)"

section \<open>Evaluating the examples\<close>

lemmas run_simps =
  main_def enter_workdir_def try_body_def fetch_extract_def serve_def handler_def uncaught_def
  print_def temp_dir_def zip_path_def os_path_join_def
  os_makedirs_def os_mkdir_def parent_ok_def os_remove_def open_wb_def urlretrieve_def
  with_ZipFile_extractall_def extract_member_def
  os_path_exists_def os_path_isdir_def os_path_isfile_def Let_def

lemmas demo_simps =
  demo_env_def demo_world_def demo_members_def broken_members_def empty_archive_env_def
  broken_archive_env_def offline_env_def demo_args_def

lemmas demo_stage_simps =
  demo_entered_def demo_fetched_def empty_entered_def empty_fetched_def
  offline_entered_def offline_failed_def
  broken_entered_def broken_downloaded_def broken_extracted_def

lemmas demo_request_simps =
  demo_fs_def demo_root_def demo_translate_path_def demo_static_def conditional_static_def
  has_header_def run_simps demo_simps

section \<open>The request handler\<close>


text \<open>
  Claim C1, as amended. A GET request whose translated path does not exist in the
  filesystem, neither as a file nor as a directory, is delegated to the inherited
  static-file logic with its path replaced by \<open>/index.html\<close>; the response is therefore
  the one the handler gives to a request for \<open>/index.html\<close> itself.
\<close>

theorem spa_fallback:
  assumes "\<not> os_path_exists f (translate_path (path self))"
  shows "do_GET translate_path super_do_GET f self =
           super_do_GET f (self\<lparr>path := ''/index.html''\<rparr>) \<and>
         do_GET translate_path super_do_GET f self =
           do_GET translate_path super_do_GET f (self\<lparr>path := ''/index.html''\<rparr>)"
  using assms by (simp add: do_GET_def)

text \<open>The request \<open>/chat/42\<close> on the demo tree gets the entry document.\<close>

theorem spa_fallback_witness:
  "\<not> os_path_exists demo_fs (demo_translate_path ''/chat/42'') \<and>
   do_GET demo_translate_path demo_static demo_fs \<lparr>path = ''/chat/42'', headers = []\<rparr> = ''<html>'' \<and>
   do_GET demo_translate_path demo_static demo_fs \<lparr>path = ''/chat/42'', headers = []\<rparr> =
     do_GET demo_translate_path demo_static demo_fs \<lparr>path = ''/index.html'', headers = []\<rparr>"
proof -
  have missing: "\<not> os_path_exists demo_fs (demo_translate_path ''/chat/42'')"
    by (simp add: demo_request_simps)
  then have missing':
    "\<not> os_path_exists demo_fs (demo_translate_path (path \<lparr>path = ''/chat/42'', headers = []\<rparr>))"
    by simp
  have index: "demo_static demo_fs \<lparr>path = ''/index.html'', headers = []\<rparr> = ''<html>''"
    by (simp add: demo_request_simps)
  note inst = spa_fallback [where f = demo_fs and translate_path = demo_translate_path
        and self = "\<lparr>path = ''/chat/42'', headers = []\<rparr>" and super_do_GET = demo_static,
        OF missing', simplified]
  from missing inst index show ?thesis by metis
qed

text \<open>
  Claim C1 as written speaks of paths that are not an existing file. The request
  \<open>/assets/\<close> names a directory, so no regular file, yet the handler hands it on with
  its path untouched, and the static-file logic answers with something else than the
  entry document.
\<close>

theorem spa_directory_not_rewritten:
  "\<not> os_path_isfile demo_fs (demo_translate_path ''/assets/'') \<and>
   path (do_GET demo_translate_path handed_on demo_fs \<lparr>path = ''/assets/'', headers = []\<rparr>)
     = ''/assets/'' \<and>
   do_GET demo_translate_path demo_static demo_fs \<lparr>path = ''/assets/'', headers = []\<rparr>
     = ''<listing>'' \<and>
   do_GET demo_translate_path demo_static demo_fs \<lparr>path = ''/index.html'', headers = []\<rparr>
     = ''<html>''"
  by (simp add: do_GET_def handed_on_def demo_request_simps)







section \<open>The script\<close>

subsection \<open>Filesystem calls keep what is there\<close>

lemma grows_refl: "grows f f"
  by (simp add: grows_def)

lemma grows_trans: "grows f g \<Longrightarrow> grows g h \<Longrightarrow> grows f h"
  by (simp add: grows_def)

lemma grows_new_dir: "f p = None \<Longrightarrow> grows f (f(p \<mapsto> Dir))"
  by (simp add: grows_def os_path_isfile_def)

lemma grows_write: "f p \<noteq> Some Dir \<Longrightarrow> grows f (f(p \<mapsto> File b))"
  by (simp add: grows_def os_path_isfile_def)

lemma grows_exists: "grows f f' \<Longrightarrow> f p \<noteq> None \<Longrightarrow> f' p \<noteq> None"
  by (cases "f p") (auto simp: grows_def os_path_isfile_def split: node.splits option.splits)

lemma grows_isfile: "grows f f' \<Longrightarrow> os_path_isfile f p \<Longrightarrow> os_path_isfile f' p"
  by (simp add: grows_def)

lemma grows_isdir: "grows f f' \<Longrightarrow> f p = Some Dir \<Longrightarrow> f' p = Some Dir"
  by (simp add: grows_def)

lemma os_mkdir_grows: "os_mkdir p f = (r, f') \<Longrightarrow> grows f f'"
  by (auto simp: os_mkdir_def grows_refl grows_new_dir split: if_splits)

lemma os_mkdir_ok: "os_mkdir p f = (None, f') \<Longrightarrow> f' p = Some Dir"
  by (auto simp: os_mkdir_def split: if_splits)

lemma os_mkdir_frame: "os_mkdir p f = (r, f') \<Longrightarrow> q \<noteq> p \<Longrightarrow> f' q = f q"
  by (auto simp: os_mkdir_def split: if_splits)

lemma makedirs_rev_effect:
  "makedirs_rev ok rp f = (r, f') \<Longrightarrow>
     grows f f' \<and> (\<forall>q. length rp < length q \<longrightarrow> f' q = f q) \<and>
     (r = None \<longrightarrow> rp \<noteq> [] \<longrightarrow> f' (rev rp) = Some Dir)"
proof (induction rp arbitrary: f r f')
  case Nil
  then show ?case by (simp add: grows_refl)
next
  case (Cons tail rhead)
  let ?ancestors =
    "if rhead \<noteq> [] \<and> \<not> os_path_exists f (rev rhead)
     then (case makedirs_rev ok rhead f of
             (Some (FileExistsError m), f') \<Rightarrow> (None, f')
           | r \<Rightarrow> r)
     else (None, f)"
  obtain r1 f1 where anc: "?ancestors = (r1, f1)"
    by (cases ?ancestors) auto
  have g1: "grows f f1 \<and> (\<forall>q. length rhead < length q \<longrightarrow> f1 q = f q)"
  proof (cases "rhead \<noteq> [] \<and> \<not> os_path_exists f (rev rhead)")
    case True
    obtain r0 f0 where rec: "makedirs_rev ok rhead f = (r0, f0)"
      by (cases "makedirs_rev ok rhead f") auto
    from anc True rec have "f1 = f0"
      by (auto split: option.splits exn.splits)
    with Cons.IH [OF rec] show ?thesis by simp
  next
    case False
    with anc show ?thesis by (auto simp: grows_refl)
  qed
  show ?case
  proof (cases r1)
    case (Some e)
    with Cons.prems anc have "f' = f1" and "r = Some e" by simp_all
    with g1 show ?thesis by simp
  next
    case None
    obtain r2 f2 where mk: "os_mkdir (rev (tail # rhead)) f1 = (r2, f2)"
      by (cases "os_mkdir (rev (tail # rhead)) f1") auto
    from Cons.prems anc None mk have f': "f' = f2"
      by (auto split: option.splits if_splits)
    from Cons.prems anc None mk have leaf:
      "r = None \<longrightarrow> r2 = None \<or> os_path_isdir f2 (rev (tail # rhead))"
      by (auto split: option.splits if_splits)
    have "grows f f'"
      using os_mkdir_grows [OF mk] g1 f' by (auto intro: grows_trans)
    moreover have "\<forall>q. length (tail # rhead) < length q \<longrightarrow> f' q = f q"
    proof (intro allI impI)
      fix q :: fspath
      assume len: "length (tail # rhead) < length q"
      then have "q \<noteq> rev (tail # rhead)" by auto
      from os_mkdir_frame [OF mk this] f' have "f' q = f1 q" by simp
      with g1 len show "f' q = f q" by simp
    qed
    moreover have "r = None \<longrightarrow> f' (rev (tail # rhead)) = Some Dir"
      using leaf os_mkdir_ok [of "rev (tail # rhead)" f1 f2] mk f'
      by (auto simp: os_path_isdir_def)
    ultimately show ?thesis by simp
  qed
qed

lemma os_makedirs_grows: "os_makedirs ok p f = (r, f') \<Longrightarrow> grows f f'"
  by (simp add: os_makedirs_def makedirs_rev_effect)

lemma os_makedirs_frame: "os_makedirs ok p f = (r, f') \<Longrightarrow> length p < length q \<Longrightarrow> f' q = f q"
  using makedirs_rev_effect [of ok "rev p" f r f'] by (simp add: os_makedirs_def)

lemma os_makedirs_ok: "os_makedirs ok p f = (None, f') \<Longrightarrow> p \<noteq> [] \<Longrightarrow> f' p = Some Dir"
  using makedirs_rev_effect [of ok "rev p" f None f'] by (simp add: os_makedirs_def)

subsection \<open>Writing files\<close>

lemma open_wb_failed: "open_wb p f = (Some e, f') \<Longrightarrow> f' = f"
  by (auto simp: open_wb_def split: if_splits)

lemma open_wb_ok: "open_wb p f = (None, f') \<Longrightarrow> f' = f(p \<mapsto> File []) \<and> f p \<noteq> Some Dir"
  by (auto simp: open_wb_def split: if_splits)

lemma urlretrieve_grows: "urlretrieve d p f = (r, f') \<Longrightarrow> grows f f'"
  by (auto simp: urlretrieve_def grows_refl grows_write
      dest!: open_wb_failed open_wb_ok split: download.splits prod.splits option.splits)

lemma urlretrieve_frame: "urlretrieve d p f = (r, f') \<Longrightarrow> q \<noteq> p \<Longrightarrow> f' q = f q"
  by (auto simp: urlretrieve_def
      dest!: open_wb_failed open_wb_ok split: download.splits prod.splits option.splits)

lemma urlretrieve_ok:
  "urlretrieve d p f = (None, f') \<Longrightarrow> \<exists>b. d = Complete b \<and> f' = f(p \<mapsto> File b) \<and> f p \<noteq> Some Dir"
  by (auto simp: urlretrieve_def
      dest!: open_wb_failed open_wb_ok split: download.splits prod.splits option.splits)


subsection \<open>Extraction\<close>

lemma extract_member_grows: "extract_member dir m f = (r, f') \<Longrightarrow> grows f f'"
proof -
  assume ex: "extract_member dir m f = (r, f')"
  let ?up = "if butlast (dir @ arcname m) \<noteq> [] \<and> \<not> os_path_exists f (butlast (dir @ arcname m))
             then os_makedirs False (butlast (dir @ arcname m)) f else (None, f)"
  obtain r1 f1 where up: "?up = (r1, f1)" by (cases ?up) auto
  have g1: "grows f f1"
    using up by (auto simp: grows_refl dest: os_makedirs_grows split: if_splits)
  show ?thesis
  proof (cases r1)
    case (Some e)
    with ex up have "f' = f1" by (simp add: extract_member_def Let_def)
    with g1 show ?thesis by simp
  next
    case None
    with ex up have "grows f1 f'"
      by (auto simp: extract_member_def Let_def grows_refl grows_write os_mkdir_grows
          dest!: open_wb_failed open_wb_ok
          split: payload.splits if_splits prod.splits option.splits)
    with g1 show ?thesis by (rule grows_trans)
  qed
qed

lemma extractall_grows: "extractall dir ms f = (r, f') \<Longrightarrow> grows f f'"
proof (induction ms arbitrary: f)
  case Nil
  then show ?case by (simp add: grows_refl)
next
  case (Cons m ms)
  obtain r1 f1 where m: "extract_member dir m f = (r1, f1)"
    by (cases "extract_member dir m f") auto
  show ?case
  proof (cases r1)
    case (Some e)
    with Cons.prems m extract_member_grows [OF m] show ?thesis by simp
  next
    case None
    with Cons.prems m have "extractall dir ms f1 = (r, f')" by simp
    from Cons.IH [OF this] extract_member_grows [OF m] show ?thesis
      by (rule grows_trans [rotated])
  qed
qed

lemma with_ZipFile_extractall_grows:
  "with_ZipFile_extractall zm zp dir f = (r, f') \<Longrightarrow> grows f f'"
  by (auto simp: with_ZipFile_extractall_def grows_refl extractall_grows
      split: option.splits node.splits sum.splits)

lemma extract_member_target:
  "extract_member dir m f = (None, f') \<Longrightarrow> f' (dir @ arcname m) \<noteq> None"
  by (auto simp: extract_member_def Let_def os_path_isdir_def
      dest!: open_wb_ok os_mkdir_ok
      split: payload.splits if_splits prod.splits option.splits)

lemma extractall_targets:
  "extractall dir ms f = (None, f') \<Longrightarrow> m \<in> set ms \<Longrightarrow> f' (dir @ arcname m) \<noteq> None"
proof (induction ms arbitrary: f)
  case Nil
  then show ?case by simp
next
  case (Cons x xs)
  obtain r1 f1 where x: "extract_member dir x f = (r1, f1)"
    by (cases "extract_member dir x f") auto
  with Cons.prems have r1: "r1 = None" and rest: "extractall dir xs f1 = (None, f')"
    by (auto split: option.splits)
  show ?case
  proof (cases "m = x")
    case True
    from extract_member_target x r1 have "f1 (dir @ arcname x) \<noteq> None" by blast
    with extractall_grows [OF rest] True show ?thesis
      by (simp add: grows_exists)
  next
    case False
    with Cons.prems have "m \<in> set xs" by simp
    from Cons.IH [OF rest this] show ?thesis .
  qed
qed

lemma with_ZipFile_extractall_ok:
  "with_ZipFile_extractall zm zp dir f = (None, f') \<Longrightarrow>
     \<exists>b ms. f zp = Some (File b) \<and> zm b = Inr ms \<and> extractall dir ms f = (None, f')"
  by (auto simp: with_ZipFile_extractall_def split: option.splits node.splits sum.splits)

subsection \<open>The stages\<close>

lemma zip_path_not_temp_dir: "zip_path E \<noteq> temp_dir E"
  by (simp add: zip_path_def os_path_join_def)

lemma temp_dir_not_root: "temp_dir E \<noteq> []"
  by (simp add: temp_dir_def os_path_join_def)

lemma zip_path_longer: "length (temp_dir E) < length (zip_path E)"
  by (simp add: zip_path_def os_path_join_def)

lemma enter_workdir_ok:
  assumes "enter_workdir E w = (None, w0)"
  shows "files w0 (temp_dir E) = Some Dir"
    and "grows (files w) (files w0)"
    and "files w0 (zip_path E) = files w (zip_path E)"
    and "stdout w0 = stdout w @ [''Downloading LiteChat release...'']"
    and "stderr w0 = stderr w"
    and "listener w0 = listener w"
proof -
  obtain f0 where mk: "os_makedirs True (temp_dir E) (files w) = (None, f0)"
    and w0: "w0 = print ''Downloading LiteChat release...'' (w\<lparr>files := f0, cwd := temp_dir E\<rparr>)"
    using assms by (auto simp: enter_workdir_def split: prod.splits option.splits)
  from w0 have f0: "files w0 = f0" by (simp add: print_def)
  from os_makedirs_ok [OF mk temp_dir_not_root] f0 show "files w0 (temp_dir E) = Some Dir"
    by simp
  from os_makedirs_grows [OF mk] f0 show "grows (files w) (files w0)" by simp
  from os_makedirs_frame [OF mk zip_path_longer] f0
  show "files w0 (zip_path E) = files w (zip_path E)" by simp
  from w0 show "stdout w0 = stdout w @ [''Downloading LiteChat release...'']"
    and "stderr w0 = stderr w" and "listener w0 = listener w"
    by (simp_all add: print_def)
qed

text \<open>What a successful fetch and extract stage did.\<close>

lemma fetch_extract_ok:
  assumes "fetch_extract E w = (None, w1)"
  shows "\<exists>b ms f2. remote E = Complete b \<and> zip_members E b = Inr ms \<and>
           (files w) (zip_path E) \<noteq> Some Dir \<and>
           extractall (temp_dir E) ms ((files w)(zip_path E \<mapsto> File b)) = (None, f2) \<and>
           os_path_isfile f2 (zip_path E) \<and>
           w1 = print ''Extraction complete.''
                  (print ''Download complete. Extracting...'' w\<lparr>files := f2(zip_path E := None)\<rparr>)"
proof -
  obtain f1 where dl: "urlretrieve (remote E) (zip_path E) (files w) = (None, f1)"
    using assms by (auto simp: fetch_extract_def split: prod.splits option.splits)
  from urlretrieve_ok [OF dl] obtain b where b: "remote E = Complete b"
    "f1 = (files w)(zip_path E \<mapsto> File b)" "files w (zip_path E) \<noteq> Some Dir"
    by blast
  obtain f2 where ex:
    "with_ZipFile_extractall (zip_members E) (zip_path E) (temp_dir E) f1 = (None, f2)"
    using assms dl
    by (auto simp: fetch_extract_def Let_def print_def split: prod.splits option.splits)
  from with_ZipFile_extractall_ok [OF ex] b obtain ms where ms:
    "zip_members E b = Inr ms" "extractall (temp_dir E) ms f1 = (None, f2)"
    by auto
  from b have "os_path_isfile f1 (zip_path E)" by (simp add: os_path_isfile_def)
  with with_ZipFile_extractall_grows [OF ex] have isf: "os_path_isfile f2 (zip_path E)"
    by (rule grows_isfile)
  then have "os_remove (zip_path E) f2 = (None, f2(zip_path E := None))"
    by (auto simp: os_remove_def os_path_isfile_def split: option.splits node.splits)
  with assms dl ex have
    "w1 = print ''Extraction complete.''
            (print ''Download complete. Extracting...'' w\<lparr>files := f2(zip_path E := None)\<rparr>)"
    by (simp add: fetch_extract_def Let_def print_def)
  with b ms isf show ?thesis by blast
qed

text \<open>
  Claim C8, as amended. After every successful fetch and extract stage the working
  directory exists as a directory and the archive file is absent from it. It is
  non-empty when the archive has a member other than the working directory itself and
  the archive's own name, or when the directory already held something else before the
  run.
\<close>

theorem workdir_after_fetch_extract:
  assumes "enter_workdir E w = (None, w0)"
    and "fetch_extract E w0 = (None, w1)"
  shows "files w1 (temp_dir E) = Some Dir \<and>
         files w1 (zip_path E) = None \<and>
         ((\<exists>b ms m. remote E = Complete b \<and> zip_members E b = Inr ms \<and> m \<in> set ms \<and>
              arcname m \<noteq> [] \<and> arcname m \<noteq> [''litechat.zip'']) \<or>
          (\<exists>rest. rest \<noteq> [] \<and> rest \<noteq> [''litechat.zip''] \<and>
              files w (temp_dir E @ rest) \<noteq> None)
          \<longrightarrow> dir_nonempty (files w1) (temp_dir E))"
proof -
  from fetch_extract_ok [OF assms(2)] obtain b ms f2 where
    b: "remote E = Complete b" and ms: "zip_members E b = Inr ms"
    and ex: "extractall (temp_dir E) ms ((files w0)(zip_path E \<mapsto> File b)) = (None, f2)"
    and w1: "w1 = print ''Extraction complete.''
                (print ''Download complete. Extracting...'' w0\<lparr>files := f2(zip_path E := None)\<rparr>)"
    and nodir: "files w0 (zip_path E) \<noteq> Some Dir"
    by blast
  from w1 have files1: "files w1 = f2(zip_path E := None)"
    by (simp add: print_def)
  have "grows (files w0) ((files w0)(zip_path E \<mapsto> File b))"
    using nodir by (rule grows_write)
  then have g: "grows (files w0) f2"
    using extractall_grows [OF ex] by (rule grows_trans)
  have g0: "grows (files w) f2"
    using enter_workdir_ok(2) [OF assms(1)] g by (rule grows_trans)
  have "f2 (temp_dir E) = Some Dir"
    using g enter_workdir_ok(1) [OF assms(1)] by (rule grows_isdir)
  then have dir: "files w1 (temp_dir E) = Some Dir"
    using files1 zip_path_not_temp_dir [of E] by auto
  from files1 have gone: "files w1 (zip_path E) = None"
    by simp
  have nonempty: "dir_nonempty (files w1) (temp_dir E)"
    if "(\<exists>b ms m. remote E = Complete b \<and> zip_members E b = Inr ms \<and> m \<in> set ms \<and>
              arcname m \<noteq> [] \<and> arcname m \<noteq> [''litechat.zip'']) \<or>
        (\<exists>rest. rest \<noteq> [] \<and> rest \<noteq> [''litechat.zip''] \<and>
              files w (temp_dir E @ rest) \<noteq> None)"
  proof -
    have "\<exists>rest. rest \<noteq> [] \<and> rest \<noteq> [''litechat.zip''] \<and> f2 (temp_dir E @ rest) \<noteq> None"
      using that
    proof
      assume "\<exists>b ms m. remote E = Complete b \<and> zip_members E b = Inr ms \<and> m \<in> set ms \<and>
                arcname m \<noteq> [] \<and> arcname m \<noteq> [''litechat.zip'']"
      with b ms obtain m where m: "m \<in> set ms" "arcname m \<noteq> []"
        "arcname m \<noteq> [''litechat.zip'']"
        by auto
      from extractall_targets [OF ex m(1)] m(2,3) show ?thesis by blast
    next
      assume "\<exists>rest. rest \<noteq> [] \<and> rest \<noteq> [''litechat.zip''] \<and>
                files w (temp_dir E @ rest) \<noteq> None"
      then obtain rest where r: "rest \<noteq> []" "rest \<noteq> [''litechat.zip'']"
        "files w (temp_dir E @ rest) \<noteq> None"
        by blast
      from grows_exists [OF g0 r(3)] r(1,2) show ?thesis by blast
    qed
    then obtain rest where r: "rest \<noteq> []" "rest \<noteq> [''litechat.zip'']"
      "f2 (temp_dir E @ rest) \<noteq> None"
      by blast
    from r(2) have "temp_dir E @ rest \<noteq> zip_path E"
      by (simp add: zip_path_def os_path_join_def)
    with r(1,3) files1 show ?thesis
      by (auto simp: dir_nonempty_def)
  qed
  from dir gone nonempty show ?thesis by blast
qed

text \<open>
  The demo run, whose archive brings the entry document and one asset, and the run with
  the archive without members.
\<close>

lemma demo_run:
  "enter_workdir demo_env demo_world = (None, demo_entered)"
  "fetch_extract demo_env demo_entered = (None, demo_fetched)"
  by (simp_all add: demo_stage_simps prod_eq_iff run_simps demo_simps)

lemma empty_run:
  "enter_workdir empty_archive_env demo_world = (None, empty_entered)"
  "fetch_extract empty_archive_env empty_entered = (None, empty_fetched)"
  by (simp_all add: demo_stage_simps prod_eq_iff run_simps demo_simps)

theorem workdir_after_fetch_extract_witness:
  "enter_workdir demo_env demo_world = (None, demo_entered) \<and>
   fetch_extract demo_env demo_entered = (None, demo_fetched) \<and>
   files demo_fetched (temp_dir demo_env) = Some Dir \<and>
   files demo_fetched (zip_path demo_env) = None \<and>
   dir_nonempty (files demo_fetched) (temp_dir demo_env) \<and>
   enter_workdir empty_archive_env demo_world = (None, empty_entered) \<and>
   fetch_extract empty_archive_env empty_entered = (None, empty_fetched) \<and>
   files empty_fetched (temp_dir empty_archive_env) = Some Dir \<and>
   files empty_fetched (zip_path empty_archive_env) = None"
proof -
  have "remote demo_env = Complete ''PK'' \<and> zip_members demo_env ''PK'' = Inr demo_members \<and>
      \<lparr>arcname = [''index.html''], payload = Data ''<html>''\<rparr> \<in> set demo_members"
    by (simp add: demo_env_def demo_members_def)
  then have member:
    "\<exists>b ms m. remote demo_env = Complete b \<and> zip_members demo_env b = Inr ms \<and> m \<in> set ms \<and>
       arcname m \<noteq> [] \<and> arcname m \<noteq> [''litechat.zip'']"
    by (intro exI [of _ "''PK''"] exI [of _ demo_members]
        exI [of _ "\<lparr>arcname = [''index.html''], payload = Data ''<html>''\<rparr>"]) simp
  from workdir_after_fetch_extract [OF demo_run] member
    workdir_after_fetch_extract [OF empty_run] demo_run empty_run
  show ?thesis by blast
qed

text \<open>
  Claim C8 as written promises a non-empty working directory after every successful
  run. A well-formed archive without members extracts without error into a fresh
  directory: the run reaches the serving stage over an empty working directory.
\<close>

theorem empty_archive_leaves_empty_workdir:
  "fst (main empty_archive_env demo_args demo_world) = Serving \<and>
   \<not> dir_nonempty (files (snd (main empty_archive_env demo_args demo_world)))
        (temp_dir empty_archive_env)"
  by (simp add: run_simps demo_simps dir_nonempty_def)

subsection \<open>The exception handler\<close>

lemma handler_frame: "p \<noteq> zip_path E \<Longrightarrow> files (snd (handler E e w)) p = files w p"
  by (auto simp: handler_def os_remove_def uncaught_def print_def
      split: option.splits node.splits)


lemma handler_clean:
  "files w (zip_path E) \<noteq> Some Dir \<Longrightarrow>
     handler E e w = (Exited 1, print (''Error: '' @ str_exn e) (w\<lparr>files := (files w)(zip_path E := None)\<rparr>))"
  by (cases "files w (zip_path E)")
     (auto simp: handler_def os_remove_def os_path_exists_def print_def fun_upd_idem
        split: node.splits)


text \<open>The run in which the download succeeds and the extraction raises.\<close>

lemma main_extraction_failure:
  assumes "enter_workdir E w = (None, w0)"
    and "urlretrieve (remote E) (zip_path E) (files w0) = (None, f1)"
    and "with_ZipFile_extractall (zip_members E) (zip_path E) (temp_dir E) f1 = (Some e, f2)"
  shows "os_path_isfile f1 (zip_path E)"
    and "os_path_isfile f2 (zip_path E)"
    and "main E a w =
           (Exited 1, print (''Error: '' @ str_exn e)
              (print ''Download complete. Extracting...'' w0\<lparr>files := f2(zip_path E := None)\<rparr>))"
proof -
  from urlretrieve_ok [OF assms(2)] show f1: "os_path_isfile f1 (zip_path E)"
    by (auto simp: os_path_isfile_def)
  with with_ZipFile_extractall_grows [OF assms(3)] show f2: "os_path_isfile f2 (zip_path E)"
    by (rule grows_isfile)
  let ?w1 = "print ''Download complete. Extracting...'' w0\<lparr>files := f2\<rparr>"
  from assms(2,3) have "fetch_extract E w0 = (Some e, ?w1)"
    by (simp add: fetch_extract_def Let_def print_def)
  then have "try_body E a w0 = (Some e, ?w1)"
    by (simp add: try_body_def)
  with assms(1) have "main E a w = handler E e ?w1"
    by (simp add: main_def)
  moreover from f2 have "files ?w1 (zip_path E) \<noteq> Some Dir"
    by (auto simp: os_path_isfile_def print_def)
  ultimately show "main E a w =
      (Exited 1, print (''Error: '' @ str_exn e)
         (print ''Download complete. Extracting...'' w0\<lparr>files := f2(zip_path E := None)\<rparr>))"
    by (simp add: handler_clean print_def)
qed


text \<open>
  Claim C9. When the extraction raises partway, the run ends with every path other
  than the archive's holding exactly what the extraction had left there: nothing is
  rolled back.
\<close>

theorem extraction_failure_keeps_extracted_files:
  assumes "enter_workdir E w = (None, w0)"
    and "urlretrieve (remote E) (zip_path E) (files w0) = (None, f1)"
    and "with_ZipFile_extractall (zip_members E) (zip_path E) (temp_dir E) f1 = (Some e, f2)"
  shows "\<forall>p. p \<noteq> zip_path E \<longrightarrow> files (snd (main E a w)) p = f2 p"
  using main_extraction_failure(3) [OF assms, of a] by (simp add: print_def)

text \<open>
  The demo run with the damaged archive: the entry document is extracted, the second
  member raises, the archive is removed, the entry document stays.
\<close>

lemma broken_run:
  "enter_workdir broken_archive_env demo_world = (None, broken_entered)"
  "urlretrieve (remote broken_archive_env) (zip_path broken_archive_env) (files broken_entered) =
     (None, broken_downloaded)"
  "with_ZipFile_extractall (zip_members broken_archive_env) (zip_path broken_archive_env)
       (temp_dir broken_archive_env) broken_downloaded =
     (Some (BadZipFile ''Bad CRC-32''), broken_extracted)"
  by (simp_all add: broken_entered_def broken_downloaded_def broken_extracted_def
      prod_eq_iff run_simps demo_simps)

lemma broken_run_extracted:
  "broken_extracted (temp_dir broken_archive_env @ [''index.html'']) = Some (File ''<html>'')"
  by (simp add: broken_entered_def broken_downloaded_def broken_extracted_def
      run_simps demo_simps)


theorem extraction_failure_keeps_extracted_files_witness:
  "with_ZipFile_extractall (zip_members broken_archive_env) (zip_path broken_archive_env)
       (temp_dir broken_archive_env) broken_downloaded =
     (Some (BadZipFile ''Bad CRC-32''), broken_extracted) \<and>
   broken_extracted (temp_dir broken_archive_env @ [''index.html'']) = Some (File ''<html>'') \<and>
   temp_dir broken_archive_env @ [''index.html''] \<noteq> zip_path broken_archive_env \<and>
   files (snd (main broken_archive_env demo_args demo_world))
     (temp_dir broken_archive_env @ [''index.html'']) = Some (File ''<html>'')"
proof -
  have other: "temp_dir broken_archive_env @ [''index.html''] \<noteq> zip_path broken_archive_env"
    by (simp add: zip_path_def os_path_join_def)
  with extraction_failure_keeps_extracted_files [OF broken_run, of demo_args]
    broken_run(3) broken_run_extracted
  show ?thesis by simp
qed


subsection \<open>The archive path over a whole run\<close>




subsection \<open>How a run ends\<close>

lemma fetch_extract_streams:
  "fetch_extract E w = (r, w') \<Longrightarrow> stderr w' = stderr w \<and> listener w' = listener w"
  by (auto simp: fetch_extract_def Let_def print_def split: prod.splits option.splits)


lemma handler_exit: "fst (handler E e w) = Exited 1"
  by (auto simp: handler_def uncaught_def split: prod.splits option.splits)

lemma main_ends: "fst (main E a w) = Exited 1 \<or> fst (main E a w) = Serving"
  by (auto simp: main_def uncaught_def handler_exit split: prod.splits option.splits)






subsection \<open>The serving stage\<close>

lemma serve_listener:
  "serve E a w = (r, w') \<Longrightarrow>
     (listener w' = listener w \<or>
      listener w' = Some (if host a then ''0.0.0.0'' else ''localhost'', port a)) \<and>
     (r = None \<longrightarrow> listener w' = Some (if host a then ''0.0.0.0'' else ''localhost'', port a))"
  by (auto simp: serve_def Let_def print_def split: option.splits sum.splits)

lemma handler_listener: "listener (snd (handler E e w)) = listener w"
  by (auto simp: handler_def uncaught_def print_def split: prod.splits option.splits)

text \<open>
  Claim C6. A run creates at most one server, and only at the address the flag selects:
  \<open>localhost\<close>, the loopback name, when \<open>--host\<close> is unset, and the wildcard address
  \<open>0.0.0.0\<close> when it is set, on the port given; a run that reaches
  \<open>serve_forever()\<close> has that server.
\<close>

theorem server_bind_address:
  "(listener (snd (main E a w)) = listener w \<or>
    listener (snd (main E a w)) = Some (if host a then ''0.0.0.0'' else ''localhost'', port a)) \<and>
   (fst (main E a w) = Serving \<longrightarrow>
      (\<not> host a \<longrightarrow> listener (snd (main E a w)) = Some (''localhost'', port a)) \<and>
      (host a \<longrightarrow> listener (snd (main E a w)) = Some (''0.0.0.0'', port a)))"
proof -
  let ?addr = "Some (if host a then ''0.0.0.0'' else ''localhost'', port a)"
  obtain r0 w0 where ew: "enter_workdir E w = (r0, w0)"
    by (cases "enter_workdir E w") auto
  show ?thesis
  proof (cases r0)
    case (Some e)
    with ew have "main E a w = uncaught e w0" by (simp add: main_def)
    moreover from ew Some have "listener w0 = listener w"
      by (auto simp: enter_workdir_def split: prod.splits option.splits)
    ultimately show ?thesis by (simp add: uncaught_def)
  next
    case None
    with ew have l0: "listener w0 = listener w"
      by (simp add: enter_workdir_ok(6))
    obtain r1 w1 where fe: "fetch_extract E w0 = (r1, w1)"
      by (cases "fetch_extract E w0") auto
    from fetch_extract_streams [OF fe] l0 have l1: "listener w1 = listener w" by simp
    show ?thesis
    proof (cases r1)
      case (Some e)
      with ew None fe have "main E a w = handler E e w1"
        by (simp add: main_def try_body_def)
      with l1 show ?thesis by (simp add: handler_listener handler_exit)
    next
      case fetched: None
      obtain r2 w2 where sv: "serve E a w1 = (r2, w2)"
        by (cases "serve E a w1") auto
      note l2 = serve_listener [OF sv]
      show ?thesis
      proof (cases r2)
        case (Some e)
        with ew None fe fetched sv have "main E a w = handler E e w2"
          by (simp add: main_def try_body_def)
        with l1 l2 show ?thesis by (auto simp: handler_listener handler_exit)
      next
        case served: None
        with ew None fe fetched sv have "main E a w = (Serving, w2)"
          by (simp add: main_def try_body_def)
        with l1 l2 served show ?thesis by auto
      qed
    qed
  qed
qed

text \<open>The demo run without and with \<open>--host\<close>.\<close>

theorem server_bind_address_witness:
  "fst (main demo_env \<lparr>port = 3000, host = False\<rparr> demo_world) = Serving \<and>
   listener (snd (main demo_env \<lparr>port = 3000, host = False\<rparr> demo_world)) =
     Some (''localhost'', 3000) \<and>
   fst (main demo_env \<lparr>port = 8080, host = True\<rparr> demo_world) = Serving \<and>
   listener (snd (main demo_env \<lparr>port = 8080, host = True\<rparr> demo_world)) =
     Some (''0.0.0.0'', 8080)"
proof -
  have "fst (main demo_env \<lparr>port = 3000, host = False\<rparr> demo_world) = Serving"
    and "fst (main demo_env \<lparr>port = 8080, host = True\<rparr> demo_world) = Serving"
    by (simp_all add: run_simps demo_simps)
  with server_bind_address [of demo_env "\<lparr>port = 3000, host = False\<rparr>" demo_world]
    server_bind_address [of demo_env "\<lparr>port = 8080, host = True\<rparr>" demo_world]
  show ?thesis by simp
qed

subsection \<open>Strings\<close>


















subsection \<open>The access message\<close>








subsection \<open>Runs that end before serving\<close>


text \<open>
  A run that does not reach \<open>serve_forever()\<close> has not announced a URL: every stage
  but the last adds only lines that are no access line.
\<close>

lemma access_lines_append: "access_lines (xs @ ys) = access_lines xs @ access_lines ys"
  by (simp add: access_lines_def)

lemma quiet_trans:
  assumes "\<exists>xs. stdout w1 = stdout w @ xs \<and> access_lines xs = []"
    and "\<exists>ys. stdout w2 = stdout w1 @ ys \<and> access_lines ys = []"
  shows "\<exists>zs. stdout w2 = stdout w @ zs \<and> access_lines zs = []"
proof -
  from assms obtain xs ys where "stdout w1 = stdout w @ xs" "access_lines xs = []"
    "stdout w2 = stdout w1 @ ys" "access_lines ys = []"
    by blast
  then have "stdout w2 = stdout w @ (xs @ ys) \<and> access_lines (xs @ ys) = []"
    by (simp add: access_lines_append)
  then show ?thesis by blast
qed

lemma enter_workdir_quiet:
  "enter_workdir E w = (r, w0) \<Longrightarrow> \<exists>xs. stdout w0 = stdout w @ xs \<and> access_lines xs = []"
  by (auto simp: enter_workdir_def print_def access_lines_def split: prod.splits option.splits)

lemma fetch_extract_quiet:
  "fetch_extract E w = (r, w1) \<Longrightarrow> \<exists>xs. stdout w1 = stdout w @ xs \<and> access_lines xs = []"
  by (auto simp: fetch_extract_def Let_def print_def access_lines_def
      split: prod.splits option.splits)

lemma serve_failed_quiet:
  "serve E a w = (Some e, w2) \<Longrightarrow> \<exists>xs. stdout w2 = stdout w @ xs \<and> access_lines xs = []"
  by (auto simp: serve_def Let_def print_def access_lines_def split: option.splits sum.splits)

lemma handler_quiet:
  "\<exists>xs. stdout (snd (handler E e w)) = stdout w @ xs \<and> access_lines xs = []"
  by (auto simp: handler_def uncaught_def print_def access_lines_def
      split: prod.splits option.splits)

lemma no_access_line_unless_serving:
  assumes "fst (main E a w) \<noteq> Serving"
  shows "access_lines (printed w (snd (main E a w))) = []"
proof -
  have "\<exists>xs. stdout (snd (main E a w)) = stdout w @ xs \<and> access_lines xs = []"
  proof -
    obtain r0 w0 where ew: "enter_workdir E w = (r0, w0)"
      by (cases "enter_workdir E w") auto
    note q0 = enter_workdir_quiet [OF ew]
    show ?thesis
    proof (cases r0)
      case (Some e)
      with ew have "snd (main E a w) = snd (uncaught e w0)" by (simp add: main_def)
      with q0 show ?thesis by (simp add: uncaught_def)
    next
      case None
      obtain r1 w1 where fe: "fetch_extract E w0 = (r1, w1)"
        by (cases "fetch_extract E w0") auto
      note q1 = quiet_trans [OF q0 fetch_extract_quiet [OF fe]]
      show ?thesis
      proof (cases r1)
        case (Some e)
        with ew None fe have "main E a w = handler E e w1"
          by (simp add: main_def try_body_def)
        with quiet_trans [OF q1 handler_quiet [of E e w1]] show ?thesis by simp
      next
        case fetched: None
        obtain r2 w2 where sv: "serve E a w1 = (r2, w2)"
          by (cases "serve E a w1") auto
        show ?thesis
        proof (cases r2)
          case (Some e)
          with ew None fe fetched sv have "main E a w = handler E e w2"
            by (simp add: main_def try_body_def)
          with quiet_trans [OF quiet_trans [OF q1 serve_failed_quiet] handler_quiet [of E e w2]]
            sv Some
          show ?thesis by simp
        next
          case served: None
          with ew None fe fetched sv have "main E a w = (Serving, w2)"
            by (simp add: main_def try_body_def)
          with assms show ?thesis by simp
        qed
      qed
    qed
  qed
  then show ?thesis by (auto simp: printed_def)
qed

end
